theory Spec2Isabelle
  imports Main
begin

section \<open>Data model of chadtree's transitions\<close>

text \<open>
  The actions of \<^verbatim>\<open>rplugin/python3/chadtree/transitions.py\<close> are coroutines over
  a \<^verbatim>\<open>State\<close>, the editor and the filesystem. Each action is embedded as a function
  that takes the answers of the collaborators it awaits and returns the sequence of
  collaborator calls it makes (its trace) together with its return value, an optional
  \<^verbatim>\<open>Stage\<close>. Paths and messages are Python strings, kept as byte strings in UTF-8.
\<close>

type_synonym path = string

text \<open>
  Modelled from the spec: the declarations of \<^verbatim>\<open>types.py\<close> are not part of the sources.
  The enumeration \<^verbatim>\<open>Mode\<close> has the members the spec lists; the transitions read only
  \<^verbatim>\<open>Mode.folder\<close> and \<^verbatim>\<open>Mode.orphan_link\<close>.
\<close>

datatype Mode = Mode_file | Mode_folder | Mode_link | Mode_orphan_link | Mode_executable

datatype ClickType = primary | secondary | tertiary | v_split | h_split

text \<open>
  A \<^verbatim>\<open>Node\<close> with the attributes the transitions read. The children of a folder are
  read by no transition and are left out.
\<close>

record Node =
  path :: path
  name :: string
  mode :: "Mode set"
  ext :: string

record FilterPattern =
  pattern :: string
  search_set :: "path set"

text \<open>The quickfix overlay: \<^verbatim>\<open>locations\<close> is a dict from path to count.\<close>

record QuickFix =
  locations :: "(path \<times> nat) list"
  filtering :: bool

type_synonym VCStatus = "(path \<times> string) list"

record State =
  root :: Node
  index :: "path set"
  selection :: "path set"
  filter_pattern :: FilterPattern
  show_hidden :: bool
  follow :: bool
  enable_vc :: bool
  width :: int
  qf :: QuickFix
  vc :: VCStatus
  current :: "path option"
  paths_lookup :: "(path \<times> int) list"

record Stage =
  state :: State
  focus :: "path option"

text \<open>
  The keyword arguments of one call of \<^verbatim>\<open>forward\<close>: \<open>None\<close> is an argument that
  is not supplied.
\<close>

record Deltas =
  d_root :: "Node option"
  d_index :: "path set option"
  d_selection :: "path set option"
  d_filter_pattern :: "FilterPattern option"
  d_show_hidden :: "bool option"
  d_follow :: "bool option"
  d_enable_vc :: "bool option"
  d_width :: "int option"
  d_qf :: "QuickFix option"
  d_vc :: "VCStatus option"
  d_current :: "path option"
  d_paths :: "path set option"

definition no_deltas :: Deltas where
  "no_deltas = \<lparr>d_root = None, d_index = None, d_selection = None,
     d_filter_pattern = None, d_show_hidden = None, d_follow = None,
     d_enable_vc = None, d_width = None, d_qf = None, d_vc = None,
     d_current = None, d_paths = None\<rparr>"

record Settings =
  mime_warn :: "string set"
  mime_ignore_exts :: "string set"

text \<open>The mutating operations of the filesystem collaborator that the actions call.\<close>

datatype fs_op =
  New path
| Rename path path
| Remove "path list"
| Trash "path list"

text \<open>
  The calls an action makes, in order: a message printed to the user (with its
  \<^verbatim>\<open>error\<close> flag), a prompt, a confirmation dialog, a mutation of the filesystem, a
  call of \<^verbatim>\<open>forward\<close> with its keyword arguments, and the window operations.
\<close>

datatype event =
  Print string bool
| Input
| Confirm
| Fs fs_op
| Forward Deltas
| Resize_fm_windows int
| Win_set_cursor int
| Show_file State ClickType
| Kill_buffers "path set"

text \<open>
  The functions of this repository that the transitions import from \<^verbatim>\<open>state.py\<close>
  and \<^verbatim>\<open>fs.py\<close>, which are not part of the sources: they are parameters of the model.
\<close>

record Lib =
  state_index :: "State \<Rightarrow> int \<Rightarrow> Node option"
  is_dir :: "Node \<Rightarrow> bool"
  is_parent :: "path \<Rightarrow> path \<Rightarrow> bool"
  ancestors :: "path \<Rightarrow> path list"
  unify_ancestors :: "path set \<Rightarrow> path list"
  forward :: "State \<Rightarrow> Deltas \<Rightarrow> State"

text \<open>
  The answers of the editor and of the filesystem during one action. \<open>run_fs\<close> is
  the outcome of a mutating operation: the message of the exception it raises, if any,
  and which paths exist afterwards.
\<close>

record Env =
  is_fm_buffer :: bool
  cursor_row :: int
  mark_lt :: int
  mark_gt :: int
  find_current_buffer_name :: string
  input :: "string option"
  confirm :: int
  guess_type :: "string \<Rightarrow> string option"
  quickfix :: "(path \<times> nat) list"
  status :: VCStatus
  exists :: "path \<Rightarrow> bool"
  fs_exists :: "path \<Rightarrow> bool"
  run_fs :: "fs_op \<Rightarrow> string option \<times> (path \<Rightarrow> bool)"

type_synonym result = "event list \<times> Stage option"

definition Stage_of :: "State \<Rightarrow> Stage" where
  "Stage_of s = \<lparr>state = s, focus = None\<rparr>"

text \<open>The calls of \<^verbatim>\<open>forward\<close> in a trace.\<close>

fun forwarded :: "event list \<Rightarrow> Deltas list" where
  "forwarded [] = []"
| "forwarded (Forward d # es) = d # forwarded es"
| "forwarded (e # es) = forwarded es"

text \<open>The mutations of the filesystem in a trace.\<close>

fun mutations :: "event list \<Rightarrow> fs_op list" where
  "mutations [] = []"
| "mutations (Fs op # es) = op # mutations es"
| "mutations (e # es) = mutations es"

text \<open>The messages printed with \<^verbatim>\<open>error=True\<close> in a trace.\<close>

fun errors :: "event list \<Rightarrow> string list" where
  "errors [] = []"
| "errors (Print m b # es) = (if b then m # errors es else errors es)"
| "errors (e # es) = errors es"

section \<open>Resizing\<close>

text \<open>
  \<^verbatim>\<open>c_resize\<close>: the new width is \<^verbatim>\<open>max(direction(state.width, 10), 1)\<close>; the callers
  pass \<^verbatim>\<open>operator.add\<close> (bigger) and \<^verbatim>\<open>operator.sub\<close> (smaller). Python integers are
  unbounded.
\<close>

definition c_resize :: "Lib \<Rightarrow> State \<Rightarrow> (int \<Rightarrow> int \<Rightarrow> int) \<Rightarrow> result" where
  "c_resize L s direction =
     (let w = max (direction (width s) 10) 1;
          d = no_deltas\<lparr>d_width := Some w\<rparr>;
          new_state = forward L s d
      in ([Forward d, Resize_fm_windows (width new_state)], Some (Stage_of new_state)))"

section \<open>Paths and messages\<close>

text \<open>
  \<^verbatim>\<open>os.path.join\<close> with two arguments and \<^verbatim>\<open>os.path.dirname\<close>, as the POSIX
  implementation of the standard library computes them (separator \<^verbatim>\<open>/\<close>).
\<close>

definition sep :: char where
  "sep = CHR ''/''"

definition join :: "path \<Rightarrow> path \<Rightarrow> path" where
  "join a b =
     (if b \<noteq> [] \<and> hd b = sep then b
      else if a = [] \<or> last a = sep then a @ b
      else a @ [sep] @ b)"

definition rstrip_sep :: "path \<Rightarrow> path" where
  "rstrip_sep p = rev (dropWhile (\<lambda>c. c = sep) (rev p))"

definition dirname :: "path \<Rightarrow> path" where
  "dirname p =
     (let head = rev (dropWhile (\<lambda>c. c \<noteq> sep) (rev p))
      in if head \<noteq> [] \<and> head \<noteq> replicate (length head) sep
         then rstrip_sep head else head)"

text \<open>
  The symbols that open the messages, as their UTF-8 bytes: the warning sign
  (U+26A0 U+FE0F), the hourglasses (U+23F3, U+231B U+FE0F), the check mark (U+2705)
  and the dog face (U+1F436).
\<close>

definition warning_sign :: string where
  "warning_sign = map char_of [226, 154, 160, 239, 184, 143 :: nat]"

definition hourglasses :: string where
  "hourglasses = map char_of [226, 143, 179 :: nat] @ ''...''
     @ map char_of [226, 140, 155, 239, 184, 143 :: nat]"

definition check_mark :: string where
  "check_mark = map char_of [226, 156, 133 :: nat]"

definition dog_face :: string where
  "dog_face = map char_of [240, 159, 144, 182 :: nat]"

text \<open>How an f-string formats a Python \<^verbatim>\<open>bool\<close>.\<close>

definition str_bool :: "bool \<Rightarrow> string" where
  "str_bool b = (if b then ''True'' else ''False'')"

text \<open>The symmetric difference \<^verbatim>\<open>a ^ b\<close> of two Python sets.\<close>

definition set_xor :: "'a set \<Rightarrow> 'a set \<Rightarrow> 'a set" where
  "set_xor a b = (a - b) \<union> (b - a)"

section \<open>The node under the cursor\<close>

text \<open>
  \<^verbatim>\<open>_index\<close>: the node of the cursor's row, when the current window shows the tree.
  The editor counts rows from 1.
\<close>

definition p_index :: "Lib \<Rightarrow> Env \<Rightarrow> State \<Rightarrow> Node option" where
  "p_index L E s =
     (if is_fm_buffer E then state_index L s (cursor_row E - 1) else None)"

text \<open>
  \<^verbatim>\<open>_indices\<close>: in visual mode the nodes of the rows between the marks
  (\<^verbatim>\<open>range(r1 - 1, r2)\<close>), otherwise the node of the cursor's row; rows without a
  node are skipped.
\<close>

definition p_indices :: "Lib \<Rightarrow> Env \<Rightarrow> State \<Rightarrow> bool \<Rightarrow> Node list" where
  "p_indices L E s is_visual =
     (if is_visual
      then List.map_filter (state_index L s) [mark_lt E - 1 .. mark_gt E - 1]
      else (case state_index L s (cursor_row E - 1) of
              None \<Rightarrow> [] | Some node \<Rightarrow> [node]))"

section \<open>Clicking and collapsing\<close>

text \<open>
  \<^verbatim>\<open>c_click\<close>. A dead link is refused first; a folder is refused while a pattern or
  a search set is present and is toggled in the index otherwise; a file is opened,
  after a confirmation when its guessed mime type is one the settings warn about.
\<close>

definition c_click :: "Lib \<Rightarrow> Env \<Rightarrow> Settings \<Rightarrow> State \<Rightarrow> ClickType \<Rightarrow> result" where
  "c_click L E settings s click_type =
     (case p_index L E s of
        None \<Rightarrow> ([], None)
      | Some node \<Rightarrow>
          if Mode_orphan_link \<in> mode node
          then ([Print (warning_sign @ ''  cannot open dead link: '' @ name node) True],
                None)
          else if Mode_folder \<in> mode node
          then (if pattern (filter_pattern s) \<noteq> [] \<or> search_set (filter_pattern s) \<noteq> {}
                then ([Print (warning_sign
                        @ ''  cannot click on folders while filtering or searching'') False],
                      None)
                else (let paths = {path node};
                          idx = set_xor (index s) paths;
                          d = no_deltas\<lparr>d_index := Some idx, d_paths := Some paths\<rparr>;
                          new_state = forward L s d
                      in ([Forward d], Some (Stage_of new_state))))
          else (let mime = guess_type E (name node);
                    m_type = takeWhile (\<lambda>c. c \<noteq> CHR ''/'')
                               (case mime of None \<Rightarrow> [] | Some m \<Rightarrow> m);
                    asks = (m_type \<in> mime_warn settings
                            \<and> ext node \<notin> mime_ignore_exts settings);
                    ans = (if asks then confirm E = 1 else True);
                    asked = (if asks then [Confirm] else [])
                in if ans
                   then (let d = no_deltas\<lparr>d_current := Some (path node)\<rparr>;
                             new_state = forward L s d
                         in (asked @ [Forward d, Show_file new_state click_type],
                             Some (Stage_of new_state)))
                   else (asked, None)))"

text \<open>
  \<^verbatim>\<open>c_collapse\<close>. The target is the node itself when it is a folder and its parent
  directory otherwise; the root is never collapsed. The cursor moves to the target's
  row when \<^verbatim>\<open>paths_lookup\<close> gives one different from 0.
\<close>

definition c_collapse :: "Lib \<Rightarrow> Env \<Rightarrow> State \<Rightarrow> result" where
  "c_collapse L E s =
     (case p_index L E s of
        None \<Rightarrow> ([], None)
      | Some node \<Rightarrow>
          (let p = (if Mode_folder \<in> mode node then path node else dirname (path node))
           in if p \<noteq> path (root s)
              then (let paths = Set.filter (\<lambda>i. i = p \<or> is_parent L p i) (index s);
                        idx = index s - paths;
                        d = no_deltas\<lparr>d_index := Some idx, d_paths := Some paths\<rparr>;
                        new_state = forward L s d;
                        row = (case map_of (paths_lookup new_state) p of
                                 None \<Rightarrow> 0 | Some r \<Rightarrow> r)
                    in (Forward d # (if row \<noteq> 0 then [Win_set_cursor (row + 1)] else []),
                        Some (Stage_of new_state)))
              else ([], None)))"

section \<open>Refreshing\<close>

text \<open>\<^verbatim>\<open>_is_filtering\<close>, as the source writes it: a conjunction.\<close>

definition p_is_filtering :: "FilterPattern \<Rightarrow> bool" where
  "p_is_filtering fp = (0 < length (pattern fp) \<and> search_set fp \<noteq> {})"

text \<open>\<^verbatim>\<open>_vc_stat\<close>: the status of version control when it is enabled.\<close>

definition p_vc_stat :: "Env \<Rightarrow> bool \<Rightarrow> VCStatus" where
  "p_vc_stat E enable = (if enable then status E else [])"

text \<open>
  \<^verbatim>\<open>c_refresh\<close>. Index entries and selected paths that no longer exist are dropped,
  the root is put back into the index, and the selection is emptied when
  \<^verbatim>\<open>_is_filtering\<close> holds. \<^verbatim>\<open>new_current or Void()\<close> supplies \<^verbatim>\<open>current\<close> only when
  it is a non-empty string.
\<close>

definition c_refresh :: "Lib \<Rightarrow> Env \<Rightarrow> State \<Rightarrow> bool \<Rightarrow> result" where
  "c_refresh L E s write =
     (let cur = find_current_buffer_name E;
          cwd = path (root s);
          paths = {cwd};
          new_current = (if is_parent L cwd cur then Some cur else None);
          idx = Set.filter (exists E) (index s) \<union> paths;
          sel = (if p_is_filtering (filter_pattern s) then {}
                 else Set.filter (exists E) (selection s));
          current_paths = (if follow s then set (ancestors L cur) else {});
          truthy = (case new_current of None \<Rightarrow> False | Some c \<Rightarrow> c \<noteq> []);
          new_index = (if truthy then idx else idx \<union> current_paths);
          q = \<lparr>locations = quickfix E, filtering = filtering (qf s)\<rparr>;
          d = no_deltas\<lparr>d_index := Some new_index, d_selection := Some sel,
                d_qf := Some q, d_vc := Some (p_vc_stat E (enable_vc s)),
                d_paths := Some paths,
                d_current := (if truthy then new_current else None)\<rparr>;
          new_state = forward L s d
      in ((if write then [Print hourglasses False] else [])
            @ [Forward d]
            @ (if write then [Print check_mark False] else []),
          Some (Stage_of new_state)))"

section \<open>Quickfix filtering\<close>

text \<open>
  \<^verbatim>\<open>c_toggle_qf_filtering\<close>: with an empty quickfix list the flag is set to
  \<^verbatim>\<open>False\<close>, \<^verbatim>\<open>forward\<close> is called all the same and an error is printed.
\<close>

definition c_toggle_qf_filtering :: "Lib \<Rightarrow> Env \<Rightarrow> State \<Rightarrow> result" where
  "c_toggle_qf_filtering L E s =
     (let locs = quickfix E;
          flag = (if locs \<noteq> [] then \<not> filtering (qf s) else False);
          q = \<lparr>locations = locs, filtering = flag\<rparr>;
          d = no_deltas\<lparr>d_qf := Some q\<rparr>;
          new_state = forward L s d
      in ([Forward d,
           (if locs \<noteq> []
            then Print (dog_face @ '' enable quickfix filtering: ''
                         @ str_bool (filtering (qf new_state))) False
            else Print ''quickfix list empty'' True)],
          Some (Stage_of new_state)))"

section \<open>Creating and renaming\<close>

text \<open>
  \<^verbatim>\<open>c_new\<close>. The parent is the node under the cursor (the root when there is none)
  or its directory; an empty answer to the prompt ends the action; an existing
  destination is reported and the input state is returned in a \<^verbatim>\<open>Stage\<close>; a failing
  creation is reported and followed by \<^verbatim>\<open>c_refresh\<close>.
\<close>

definition c_new :: "Lib \<Rightarrow> Env \<Rightarrow> State \<Rightarrow> result" where
  "c_new L E s =
     (let node = (case p_index L E s of None \<Rightarrow> root s | Some n \<Rightarrow> n);
          parent = (if is_dir L node then path node else dirname (path node))
      in case input E of
           None \<Rightarrow> ([Input], None)
         | Some child \<Rightarrow>
             if child = [] then ([Input], None)
             else (let nm = join parent child
                   in if fs_exists E nm
                      then ([Input, Print (warning_sign @ ''  Exists: '' @ nm) True],
                            Some (Stage_of s))
                      else (case run_fs E (New nm) of
                              (Some e, after) \<Rightarrow>
                                (let r = c_refresh L (E\<lparr>exists := after\<rparr>) s False
                                 in ([Input, Fs (New nm), Print e True] @ fst r, snd r))
                            | (None, after) \<Rightarrow>
                                (let paths = set (ancestors L nm);
                                     idx = index s \<union> paths;
                                     d = no_deltas\<lparr>d_index := Some idx,
                                           d_paths := Some paths\<rparr>;
                                     new_state = forward L s d
                                 in ([Input, Fs (New nm), Forward d],
                                     Some (Stage_of new_state))))))"

text \<open>
  \<^verbatim>\<open>c_rename\<close>. The new name is joined to the root's path; the checks are those of
  \<^verbatim>\<open>c_new\<close>.
\<close>

definition c_rename :: "Lib \<Rightarrow> Env \<Rightarrow> State \<Rightarrow> result" where
  "c_rename L E s =
     (case p_index L E s of
        None \<Rightarrow> ([], None)
      | Some node \<Rightarrow>
          (let prev_name = path node;
               parent = path (root s)
           in case input E of
                None \<Rightarrow> ([Input], None)
              | Some child \<Rightarrow>
                  if child = [] then ([Input], None)
                  else (let new_name = join parent child;
                            new_parent = dirname new_name
                        in if fs_exists E new_name
                           then ([Input,
                                  Print (warning_sign @ ''  Exists: '' @ new_name) True],
                                 Some (Stage_of s))
                           else (case run_fs E (Rename prev_name new_name) of
                                   (Some e, after) \<Rightarrow>
                                     (let r = c_refresh L (E\<lparr>exists := after\<rparr>) s False
                                      in ([Input, Fs (Rename prev_name new_name),
                                           Print e True] @ fst r, snd r))
                                 | (None, after) \<Rightarrow>
                                     (let paths = {parent, new_parent}
                                                    \<union> set (ancestors L new_parent);
                                          idx = index s \<union> paths;
                                          d = no_deltas\<lparr>d_index := Some idx,
                                                d_paths := Some paths\<rparr>;
                                          new_state = forward L s d
                                      in ([Input, Fs (Rename prev_name new_name),
                                           Forward d, Kill_buffers {prev_name}],
                                          Some (Stage_of new_state)))))))"

section \<open>Selecting and deleting\<close>

text \<open>
  \<^verbatim>\<open>c_select\<close>: the paths of the nodes under the marks (visual mode) or of the node
  under the cursor are toggled in the selection by \<^verbatim>\<open>^\<close>.
\<close>

definition c_select :: "Lib \<Rightarrow> Env \<Rightarrow> State \<Rightarrow> bool \<Rightarrow> result" where
  "c_select L E s is_visual =
     (let nodes = p_indices L E s is_visual
      in if is_visual
         then (let sel = set_xor (selection s) (path ` set nodes);
                   d = no_deltas\<lparr>d_selection := Some sel\<rparr>;
                   new_state = forward L s d
               in ([Forward d], Some (Stage_of new_state)))
         else (case nodes of
                 [] \<Rightarrow> ([], None)
               | node # rest \<Rightarrow>
                   (let sel = set_xor (selection s) {path node};
                        d = no_deltas\<lparr>d_selection := Some sel\<rparr>;
                        new_state = forward L s d
                    in ([Forward d], Some (Stage_of new_state)))))"

text \<open>
  \<^verbatim>\<open>_delete\<close>. The paths to delete are the selection or, when it is empty, the nodes
  under the cursor or the marks, without those that have an ancestor among them.
  After the confirmation \<^verbatim>\<open>yeet\<close> runs; when it raises, the exception is printed and
  the result is that of \<^verbatim>\<open>c_refresh\<close>, which sees the filesystem as the failed
  operation left it.
\<close>

definition p_delete :: "Lib \<Rightarrow> Env \<Rightarrow> State \<Rightarrow> bool \<Rightarrow> (path list \<Rightarrow> fs_op) \<Rightarrow> result" where
  "p_delete L E s is_visual yeet =
     (let sel = (if selection s \<noteq> {} then selection s
                 else path ` set (p_indices L E s is_visual));
          unified = unify_ancestors L sel
      in if unified \<noteq> []
         then (if confirm E = 1
               then (case run_fs E (yeet unified) of
                       (Some e, after) \<Rightarrow>
                         (let r = c_refresh L (E\<lparr>exists := after\<rparr>) s False
                          in ([Confirm, Fs (yeet unified), Print e True] @ fst r, snd r))
                     | (None, after) \<Rightarrow>
                         (let paths = dirname ` set unified;
                              d = no_deltas\<lparr>d_selection := Some {},
                                    d_paths := Some paths\<rparr>;
                              new_state = forward L s d
                          in ([Confirm, Fs (yeet unified), Forward d, Kill_buffers sel],
                              Some (Stage_of new_state))))
               else ([Confirm], None))
         else ([], None))"

definition c_delete :: "Lib \<Rightarrow> Env \<Rightarrow> State \<Rightarrow> bool \<Rightarrow> result" where
  "c_delete L E s is_visual = p_delete L E s is_visual Remove"

definition c_trash :: "Lib \<Rightarrow> Env \<Rightarrow> State \<Rightarrow> bool \<Rightarrow> result" where
  "c_trash L E s is_visual = p_delete L E s is_visual Trash"

section \<open>The transition function\<close>

text \<open>
  Modelled from the spec: \<^verbatim>\<open>forward\<close> of \<^verbatim>\<open>state.py\<close> is not part of the sources.
  The spec's algorithm: the deltas supplied replace the fields of the old state and
  the other fields are carried over; the tree is scanned again when a root is supplied
  or \<^verbatim>\<open>paths\<close> is not empty, and is reused otherwise; \<^verbatim>\<open>paths_lookup\<close> is computed
  again. The scan and the view are parameters.
\<close>

definition supplied :: "'a option \<Rightarrow> 'a \<Rightarrow> 'a" where
  "supplied delta old = (case delta of None \<Rightarrow> old | Some v \<Rightarrow> v)"

definition forward_spec ::
  "(State \<Rightarrow> path set \<Rightarrow> Node) \<Rightarrow> (State \<Rightarrow> (path \<times> int) list) \<Rightarrow> State \<Rightarrow> Deltas \<Rightarrow> State" where
  "forward_spec scan view s d =
     (let merged = s\<lparr>root := supplied (d_root d) (root s),
            index := supplied (d_index d) (index s),
            selection := supplied (d_selection d) (selection s),
            filter_pattern := supplied (d_filter_pattern d) (filter_pattern s),
            show_hidden := supplied (d_show_hidden d) (show_hidden s),
            follow := supplied (d_follow d) (follow s),
            enable_vc := supplied (d_enable_vc d) (enable_vc s),
            width := supplied (d_width d) (width s),
            qf := supplied (d_qf d) (qf s),
            vc := supplied (d_vc d) (vc s),
            current := (case d_current d of None \<Rightarrow> current s | Some c \<Rightarrow> Some c)\<rparr>;
          invalid = supplied (d_paths d) {};
          scanned = (if d_root d \<noteq> None \<or> invalid \<noteq> {}
                     then merged\<lparr>root := scan merged invalid\<rparr> else merged)
      in scanned\<lparr>paths_lookup := view scanned\<rparr>)"

section \<open>The dispatcher's state\<close>

text \<open>
  \<^verbatim>\<open>Main._run\<close> of \<^verbatim>\<open>__init__.py\<close>: the state after an action is the state of the
  \<^verbatim>\<open>Stage\<close> it returns, and the state before it when it returns none.
\<close>

definition run_state :: "State \<Rightarrow> result \<Rightarrow> State" where
  "run_state s r = (case snd r of None \<Rightarrow> s | Some stage \<Rightarrow> state stage)"

text \<open>The state after \<open>n\<close> resize actions in the same direction.\<close>

fun resized :: "Lib \<Rightarrow> (int \<Rightarrow> int \<Rightarrow> int) \<Rightarrow> nat \<Rightarrow> State \<Rightarrow> State" where
  "resized L direction 0 s = s"
| "resized L direction (Suc n) s =
     (let t = resized L direction n s in run_state t (c_resize L t direction))"

section \<open>A small tree\<close>

text \<open>
  The tree used to run the actions: the root \<^verbatim>\<open>/r\<close> with the folder \<^verbatim>\<open>/r/b\<close>, the
  file \<^verbatim>\<open>/r/b/c.txt\<close>, the file \<^verbatim>\<open>/r/d.txt\<close> and the dead link \<^verbatim>\<open>/r/l\<close>, one row each
  in this order.
\<close>

definition node_r :: Node where
  "node_r = \<lparr>path = ''/r'', name = ''r'', mode = {Mode_folder}, ext = []\<rparr>"

definition node_b :: Node where
  "node_b = \<lparr>path = ''/r/b'', name = ''b'', mode = {Mode_folder}, ext = []\<rparr>"

definition node_c :: Node where
  "node_c = \<lparr>path = ''/r/b/c.txt'', name = ''c.txt'', mode = {Mode_file}, ext = ''.txt''\<rparr>"

definition node_d :: Node where
  "node_d = \<lparr>path = ''/r/d.txt'', name = ''d.txt'', mode = {Mode_file}, ext = ''.txt''\<rparr>"

definition node_l :: Node where
  "node_l = \<lparr>path = ''/r/l'', name = ''l'', mode = {Mode_link, Mode_orphan_link}, ext = []\<rparr>"

definition rows :: "int \<Rightarrow> Node option" where
  "rows i = (if i = 0 then Some node_r else if i = 1 then Some node_b
             else if i = 2 then Some node_c else if i = 3 then Some node_d
             else if i = 4 then Some node_l else None)"

text \<open>
  A library for the small tree: a path is below another when that one followed by
  the separator is a proper prefix of it; the ancestors are the directories up to
  \<^verbatim>\<open>/\<close>, found by \<open>dirname\<close> in at most as many steps as the path has bytes.
\<close>

definition below :: "path \<Rightarrow> path \<Rightarrow> bool" where
  "below parent child =
     (length parent < length child \<and> take (length parent + 1) child = parent @ [sep])"

fun dirnames :: "nat \<Rightarrow> path \<Rightarrow> path list" where
  "dirnames 0 p = []"
| "dirnames (Suc n) p =
     (if p = [] \<or> p = [sep] then [] else dirnames n (dirname p) @ [dirname p])"

definition lib0 :: Lib where
  "lib0 = \<lparr>state_index = (\<lambda>s i. rows i),
           is_dir = (\<lambda>n. Mode_folder \<in> mode n),
           is_parent = below,
           ancestors = (\<lambda>p. dirnames (length p) p),
           unify_ancestors = (\<lambda>S. filter (\<lambda>p. p \<in> S)
              [''/r'', ''/r/b'', ''/r/b/c.txt'', ''/r/d.txt'', ''/r/l'']),
           forward = forward_spec (\<lambda>s ps. root s) paths_lookup\<rparr>"

definition state0 :: State where
  "state0 = \<lparr>root = node_r, index = {''/r'', ''/r/b''}, selection = {},
     filter_pattern = \<lparr>pattern = [], search_set = {}\<rparr>,
     show_hidden = False, follow = False, enable_vc = False, width = 40,
     qf = \<lparr>locations = [], filtering = False\<rparr>, vc = [], current = None,
     paths_lookup = [(''/r'', 0), (''/r/b'', 1), (''/r/b/c.txt'', 2), (''/r/d.txt'', 3),
        (''/r/l'', 4)]\<rparr>"

definition env0 :: Env where
  "env0 = \<lparr>is_fm_buffer = True, cursor_row = 2, mark_lt = 3, mark_gt = 4,
     find_current_buffer_name = ''/r/d.txt'', input = Some ''d.txt'', confirm = 1,
     guess_type = (\<lambda>n. None), quickfix = [], status = [],
     exists = (\<lambda>p. True), fs_exists = (\<lambda>p. True),
     run_fs = (\<lambda>op. (Some ''Permission denied'', (\<lambda>p. True)))\<rparr>"

definition settings0 :: Settings where
  "settings0 = \<lparr>mime_warn = {''audio'', ''font'', ''image'', ''video''},
     mime_ignore_exts = {''.ts''}\<rparr>"

text \<open>
  States of the small tree: with \<^verbatim>\<open>/r/d.txt\<close> selected; with a filter pattern only;
  with a pattern and the selection; with a pattern, a search set and the selection;
  with quickfix filtering switched on.
\<close>

definition state_sel :: State where
  "state_sel = state0\<lparr>selection := {''/r/d.txt''}\<rparr>"

definition state_pat :: State where
  "state_pat = state0\<lparr>filter_pattern := \<lparr>pattern = ''d'', search_set = {}\<rparr>\<rparr>"

definition state_pat_sel :: State where
  "state_pat_sel = state_sel\<lparr>filter_pattern := \<lparr>pattern = ''d'', search_set = {}\<rparr>\<rparr>"

definition state_both_sel :: State where
  "state_both_sel =
     state_sel\<lparr>filter_pattern := \<lparr>pattern = ''d'', search_set = {''/r/d.txt''}\<rparr>\<rparr>"

definition state_qf :: State where
  "state_qf = state0\<lparr>qf := \<lparr>locations = [(''/r/d.txt'', 2)], filtering = True\<rparr>\<rparr>"

section \<open>A small disk\<close>

text \<open>
  What is on disk, as far as \<^verbatim>\<open>os.path.exists\<close> of the standard library looks at it:
  regular files, directories and symbolic links with their targets.
  \<^verbatim>\<open>os.path.lexists\<close> asks whether the entry itself is there. \<^verbatim>\<open>os.path.exists\<close> asks
  whether \<^verbatim>\<open>os.stat\<close> succeeds, and \<^verbatim>\<open>os.stat\<close> follows links: for a link whose target
  is missing, and for a chain of links that comes back to itself, the answer is
  \<^verbatim>\<open>False\<close> although the link is on disk. A chain of more links than the disk has entries
  comes back to itself.
\<close>

datatype entry = Regular | Directory | Symlink path

type_synonym disk = "(path \<times> entry) list"

definition lexists :: "disk \<Rightarrow> path \<Rightarrow> bool" where
  "lexists d p = (map_of d p \<noteq> None)"

fun stat_succeeds :: "nat \<Rightarrow> disk \<Rightarrow> path \<Rightarrow> bool" where
  "stat_succeeds 0 d p = False"
| "stat_succeeds (Suc n) d p =
     (case map_of d p of
        None \<Rightarrow> False
      | Some Regular \<Rightarrow> True
      | Some Directory \<Rightarrow> True
      | Some (Symlink target) \<Rightarrow> stat_succeeds n d target)"

definition os_path_exists :: "disk \<Rightarrow> path \<Rightarrow> bool" where
  "os_path_exists d p = stat_succeeds (Suc (length d)) d p"

text \<open>
  The disk under the small tree: \<^verbatim>\<open>/r/l\<close> is a link to \<^verbatim>\<open>/r/gone\<close>, which is not
  there. On this disk every mutation fails with a permission error and changes nothing.
\<close>

definition disk0 :: disk where
  "disk0 = [(''/r'', Directory), (''/r/b'', Directory), (''/r/b/c.txt'', Regular),
     (''/r/d.txt'', Regular), (''/r/l'', Symlink ''/r/gone'')]"

definition env_disk :: Env where
  "env_disk = env0\<lparr>exists := os_path_exists disk0, fs_exists := os_path_exists disk0,
     run_fs := (\<lambda>op. (Some ''Permission denied'', os_path_exists disk0))\<rparr>"

definition state_link :: State where
  "state_link = state0\<lparr>selection := {''/r/l''}\<rparr>"

section \<open>Properties\<close>

subsection \<open>Resizing keeps the width positive\<close>

text \<open>
  C9. For both directions the width that \<^verbatim>\<open>c_resize\<close> passes to \<^verbatim>\<open>forward\<close> is the
  old width plus or minus 10, but at least 1; whatever the direction, the width passed
  is at least 1. With a \<^verbatim>\<open>forward\<close> that adopts the width it is given, the width after
  any positive number of resize actions is therefore at least 1.
\<close>

theorem c_resize_width:
  "forwarded (fst (c_resize L s (+))) = [no_deltas\<lparr>d_width := Some (max (width s + 10) 1)\<rparr>]
   \<and> forwarded (fst (c_resize L s (-))) = [no_deltas\<lparr>d_width := Some (max (width s - 10) 1)\<rparr>]
   \<and> (\<exists>w. map d_width (forwarded (fst (c_resize L s direction))) = [Some w] \<and> 1 \<le> w)
   \<and> ((\<forall>t d w. d_width d = Some w \<longrightarrow> width (forward L t d) = w)
        \<longrightarrow> 1 \<le> width (resized L direction (Suc n) s))"
  by (simp add: c_resize_def Let_def run_state_def Stage_of_def)

text \<open>Shrinking from width 5 passes 1, and seven shrinks from width 40 end at 1.\<close>

theorem c_resize_width_witness:
  "forwarded (fst (c_resize lib0 (state0\<lparr>width := 5\<rparr>) (-))) = [no_deltas\<lparr>d_width := Some 1\<rparr>]
   \<and> 1 \<le> width (resized lib0 (-) 7 (state0\<lparr>width := 5\<rparr>))
   \<and> width (resized lib0 (-) 7 state0) = 1"
proof -
  have m: "\<forall>t d w. d_width d = Some w \<longrightarrow> width (forward lib0 t d) = w"
    by (simp add: lib0_def forward_spec_def supplied_def Let_def)
  note t = c_resize_width [of lib0 "state0\<lparr>width := 5\<rparr>" "(-)" 6]
  from t have "forwarded (fst (c_resize lib0 (state0\<lparr>width := 5\<rparr>) (-))) =
      [no_deltas\<lparr>d_width := Some (max (width (state0\<lparr>width := 5\<rparr>) - 10) 1)\<rparr>]"
    by blast
  then have 1: "forwarded (fst (c_resize lib0 (state0\<lparr>width := 5\<rparr>) (-))) =
      [no_deltas\<lparr>d_width := Some 1\<rparr>]"
    by simp
  from t m have 2: "1 \<le> width (resized lib0 (-) (Suc 6) (state0\<lparr>width := 5\<rparr>))"
    by blast
  have 3: "width (resized lib0 (-) 7 state0) = 1"
    by (simp add: lib0_def forward_spec_def supplied_def state0_def eval_nat_numeral
        c_resize_def Let_def run_state_def Stage_of_def no_deltas_def)
  from 1 2 3 show ?thesis
    by (simp add: eval_nat_numeral)
qed

subsection \<open>Clicking a dead link\<close>

text \<open>
  C10. A click of any type on a node whose mode contains \<^verbatim>\<open>orphan_link\<close> prints the
  error that the link is dead and returns no \<^verbatim>\<open>Stage\<close>: \<^verbatim>\<open>forward\<close> is not called,
  no file is shown, and the dispatcher keeps its state.
\<close>

theorem c_click_orphan_link:
  assumes "p_index L E s = Some node" and "Mode_orphan_link \<in> mode node"
  shows "c_click L E settings s click_type =
           ([Print (warning_sign @ ''  cannot open dead link: '' @ name node) True], None)
         \<and> errors (fst (c_click L E settings s click_type)) =
             [warning_sign @ ''  cannot open dead link: '' @ name node]
         \<and> forwarded (fst (c_click L E settings s click_type)) = []
         \<and> run_state s (c_click L E settings s click_type) = s"
  using assms by (simp add: c_click_def run_state_def)

text \<open>The fifth row of the small tree is the dead link \<^verbatim>\<open>/r/l\<close>.\<close>

theorem c_click_orphan_link_witness:
  "p_index lib0 (env0\<lparr>cursor_row := 5\<rparr>) state0 = Some node_l
   \<and> Mode_orphan_link \<in> mode node_l
   \<and> c_click lib0 (env0\<lparr>cursor_row := 5\<rparr>) settings0 state0 tertiary =
       ([Print (warning_sign @ ''  cannot open dead link: l'') True], None)"
proof -
  have a: "p_index lib0 (env0\<lparr>cursor_row := 5\<rparr>) state0 = Some node_l"
    by (simp add: p_index_def lib0_def env0_def rows_def)
  have b: "Mode_orphan_link \<in> mode node_l"
    by (simp add: node_l_def)
  show ?thesis
    using a b c_click_orphan_link [OF a b, of settings0 tertiary]
    by (simp add: node_l_def)
qed

subsection \<open>Clicking a folder while filtering\<close>

text \<open>
  C5. A click of any type on a folder while the pattern or the search set is not empty
  prints one message and returns no \<^verbatim>\<open>Stage\<close>: \<^verbatim>\<open>forward\<close> is not called, so the
  folder is not toggled in the index, and the dispatcher keeps its state. The message is
  the one about folders, unless the folder is also marked as a dead link, which is
  refused first with its own message.
\<close>

theorem c_click_folder_filtering:
  assumes "p_index L E s = Some node" and "Mode_folder \<in> mode node"
    and "pattern (filter_pattern s) \<noteq> [] \<or> search_set (filter_pattern s) \<noteq> {}"
  shows "snd (c_click L E settings s click_type) = None
         \<and> (\<exists>m b. fst (c_click L E settings s click_type) = [Print m b])
         \<and> forwarded (fst (c_click L E settings s click_type)) = []
         \<and> run_state s (c_click L E settings s click_type) = s
         \<and> (Mode_orphan_link \<notin> mode node \<longrightarrow>
              fst (c_click L E settings s click_type) =
                [Print (warning_sign
                   @ ''  cannot click on folders while filtering or searching'') False])"
  using assms by (auto simp add: c_click_def run_state_def)

text \<open>The second row is the folder \<^verbatim>\<open>/r/b\<close>, clicked while a pattern is set.\<close>

theorem c_click_folder_filtering_witness:
  "p_index lib0 env0 state_pat = Some node_b
   \<and> Mode_folder \<in> mode node_b
   \<and> pattern (filter_pattern state_pat) \<noteq> []
   \<and> c_click lib0 env0 settings0 state_pat primary =
       ([Print (warning_sign
           @ ''  cannot click on folders while filtering or searching'') False], None)"
proof -
  have a: "p_index lib0 env0 state_pat = Some node_b"
    by (simp add: p_index_def lib0_def env0_def rows_def)
  have b: "Mode_folder \<in> mode node_b"
    by (simp add: node_b_def)
  have c: "pattern (filter_pattern state_pat) \<noteq> [] \<or> search_set (filter_pattern state_pat) \<noteq> {}"
    by (simp add: state_pat_def state0_def)
  have d: "Mode_orphan_link \<notin> mode node_b"
    by (simp add: node_b_def)
  from c_click_folder_filtering [OF a b c, of settings0 primary] d
  have "fst (c_click lib0 env0 settings0 state_pat primary) =
          [Print (warning_sign
             @ ''  cannot click on folders while filtering or searching'') False]"
    and "snd (c_click lib0 env0 settings0 state_pat primary) = None"
    by simp_all
  then have "c_click lib0 env0 settings0 state_pat primary =
       ([Print (warning_sign
           @ ''  cannot click on folders while filtering or searching'') False], None)"
    by (simp add: prod_eq_iff)
  with a b show ?thesis
    by (simp add: state_pat_def state0_def)
qed

subsection \<open>Collapsing\<close>

text \<open>
  C7. Let \<open>p\<close> be the target of \<^verbatim>\<open>c_collapse\<close>: the node's path when it is a folder,
  its parent directory otherwise. When \<open>p\<close> is not the root's path, \<^verbatim>\<open>forward\<close> is
  called once, with the old index minus exactly its entries that are \<open>p\<close> or that
  \<^verbatim>\<open>is_parent\<close> places below \<open>p\<close>. When \<open>p\<close> is the root's path, nothing is called,
  no \<^verbatim>\<open>Stage\<close> is returned and the dispatcher keeps its state. So collapse never removes
  the root's path from the index: for a target that is the root or below it, as the
  target of every node of the tree is, and an \<^verbatim>\<open>is_parent\<close> that never holds in both
  directions, an index that contains the root's path is passed on to \<^verbatim>\<open>forward\<close> with
  the root's path in it, and the index of the dispatcher's state contains it afterwards
  (for a \<^verbatim>\<open>forward\<close> that adopts the index it is given).
\<close>

theorem c_collapse_index:
  assumes "p_index L E s = Some node"
    and "p = (if Mode_folder \<in> mode node then path node else dirname (path node))"
    and "gone = Set.filter (\<lambda>i. i = p \<or> is_parent L p i) (index s)"
  shows "(p \<noteq> path (root s) \<longrightarrow>
            forwarded (fst (c_collapse L E s)) =
              [no_deltas\<lparr>d_index := Some (index s - gone), d_paths := Some gone\<rparr>]
            \<and> snd (c_collapse L E s) =
                Some (Stage_of (forward L s
                  (no_deltas\<lparr>d_index := Some (index s - gone), d_paths := Some gone\<rparr>)))
            \<and> gone = {i \<in> index s. i = p \<or> is_parent L p i})
         \<and> (p = path (root s) \<longrightarrow>
              c_collapse L E s = ([], None) \<and> run_state s (c_collapse L E s) = s)
         \<and> (path (root s) \<in> index s
              \<and> (p = path (root s) \<or> is_parent L (path (root s)) p)
              \<and> (\<forall>a b. is_parent L a b \<longrightarrow> \<not> is_parent L b a)
              \<longrightarrow> (\<forall>d \<in> set (forwarded (fst (c_collapse L E s))).
                      \<exists>idx. d_index d = Some idx \<and> path (root s) \<in> idx)
                  \<and> ((\<forall>t d idx. d_index d = Some idx \<longrightarrow> index (forward L t d) = idx)
                       \<longrightarrow> path (root s) \<in> index (run_state s (c_collapse L E s))))"
proof -
  let ?d = "no_deltas\<lparr>d_index := Some (index s - gone), d_paths := Some gone\<rparr>"
  have 1: "c_collapse L E s = ([], None)" if "p = path (root s)"
    using that assms by (simp add: c_collapse_def Let_def)
  have 2: "forwarded (fst (c_collapse L E s)) = [?d]
           \<and> snd (c_collapse L E s) = Some (Stage_of (forward L s ?d))"
    if "p \<noteq> path (root s)"
    using that assms by (simp add: c_collapse_def Let_def)
  have 3: "gone = {i \<in> index s. i = p \<or> is_parent L p i}"
    using assms(3) by auto
  have 4: "path (root s) \<in> index s - gone"
    if "path (root s) \<in> index s" and "p \<noteq> path (root s)"
      and "is_parent L (path (root s)) p"
      and "\<forall>a b. is_parent L a b \<longrightarrow> \<not> is_parent L b a"
  proof -
    from that(3,4) have "\<not> is_parent L p (path (root s))"
      by blast
    with that(1,2) 3 show ?thesis
      by auto
  qed
  have 5: "(\<forall>d \<in> set (forwarded (fst (c_collapse L E s))).
              \<exists>idx. d_index d = Some idx \<and> path (root s) \<in> idx)
           \<and> ((\<forall>t d idx. d_index d = Some idx \<longrightarrow> index (forward L t d) = idx)
                \<longrightarrow> path (root s) \<in> index (run_state s (c_collapse L E s)))"
    if r: "path (root s) \<in> index s"
      and u: "p = path (root s) \<or> is_parent L (path (root s)) p"
      and a: "\<forall>a b. is_parent L a b \<longrightarrow> \<not> is_parent L b a"
  proof (cases "p = path (root s)")
    case True
    with 1 r show ?thesis
      by (simp add: run_state_def)
  next
    case False
    with u have "is_parent L (path (root s)) p"
      by simp
    from 4 [OF r False this a] have k: "path (root s) \<in> index s - gone" .
    have "index (forward L s ?d) = index s - gone"
      if "\<forall>t d idx. d_index d = Some idx \<longrightarrow> index (forward L t d) = idx"
      using that by simp
    with k 2 [OF False] show ?thesis
      by (simp add: run_state_def Stage_of_def)
  qed
  from 1 2 3 5 show ?thesis
    by (simp add: run_state_def)
qed

text \<open>
  Collapsing on the file \<^verbatim>\<open>/r/b/c.txt\<close> removes \<^verbatim>\<open>/r/b\<close> from the index and keeps the
  root \<^verbatim>\<open>/r\<close>; collapsing on the file \<^verbatim>\<open>/r/d.txt\<close>, whose directory is the root, does
  nothing.
\<close>

theorem c_collapse_index_witness:
  "p_index lib0 (env0\<lparr>cursor_row := 3\<rparr>) state0 = Some node_c
   \<and> forwarded (fst (c_collapse lib0 (env0\<lparr>cursor_row := 3\<rparr>) state0)) =
       [no_deltas\<lparr>d_index := Some {''/r''}, d_paths := Some {''/r/b''}\<rparr>]
   \<and> path (root state0) \<in> index state0
   \<and> is_parent lib0 (path (root state0)) ''/r/b''
   \<and> path (root state0) = ''/r''
   \<and> path (root state0) \<in> index (run_state state0
         (c_collapse lib0 (env0\<lparr>cursor_row := 3\<rparr>) state0))
   \<and> p_index lib0 (env0\<lparr>cursor_row := 4\<rparr>) state0 = Some node_d
   \<and> c_collapse lib0 (env0\<lparr>cursor_row := 4\<rparr>) state0 = ([], None)"
proof -
  have a: "p_index lib0 (env0\<lparr>cursor_row := 3\<rparr>) state0 = Some node_c"
    by (simp add: p_index_def lib0_def env0_def rows_def)
  have b: "p_index lib0 (env0\<lparr>cursor_row := 4\<rparr>) state0 = Some node_d"
    by (simp add: p_index_def lib0_def env0_def rows_def)
  have pc: "''/r/b'' = (if Mode_folder \<in> mode node_c then path node_c else dirname (path node_c))"
    by (simp add: node_c_def dirname_def rstrip_sep_def sep_def)
  have pd: "''/r'' = (if Mode_folder \<in> mode node_d then path node_d else dirname (path node_d))"
    by (simp add: node_d_def dirname_def rstrip_sep_def sep_def)
  have g: "{''/r/b''} = Set.filter (\<lambda>i. i = ''/r/b'' \<or> is_parent lib0 ''/r/b'' i) (index state0)"
    by (auto simp add: state0_def lib0_def below_def sep_def)
  have r: "path (root state0) = ''/r''"
    by (simp add: state0_def node_r_def)
  have i: "index state0 - {''/r/b''} = {''/r''}"
    by (auto simp add: state0_def)
  have ri: "path (root state0) \<in> index state0"
    by (simp add: state0_def node_r_def)
  have u: "is_parent lib0 (path (root state0)) ''/r/b''"
    by (simp add: r lib0_def below_def sep_def)
  have asym: "\<forall>a b. is_parent lib0 a b \<longrightarrow> \<not> is_parent lib0 b a"
    by (simp add: lib0_def below_def)
  have m: "\<forall>t d idx. d_index d = Some idx \<longrightarrow> index (forward lib0 t d) = idx"
    by (simp add: lib0_def forward_spec_def supplied_def Let_def)
  note t = c_collapse_index [OF a pc g]
  from t r i
  have 1: "forwarded (fst (c_collapse lib0 (env0\<lparr>cursor_row := 3\<rparr>) state0)) =
       [no_deltas\<lparr>d_index := Some {''/r''}, d_paths := Some {''/r/b''}\<rparr>]"
    by simp
  from t ri u asym m
  have 4: "path (root state0) \<in> index (run_state state0
         (c_collapse lib0 (env0\<lparr>cursor_row := 3\<rparr>) state0))"
    by blast
  from c_collapse_index [OF b pd refl] r
  have 2: "c_collapse lib0 (env0\<lparr>cursor_row := 4\<rparr>) state0 = ([], None)"
    by simp
  from a b 1 2 4 ri u r show ?thesis by blast
qed

subsection \<open>An existing destination\<close>

text \<open>
  C3. When the destination of \<^verbatim>\<open>c_rename\<close> (the answer to the prompt joined to the
  root's path) or of \<^verbatim>\<open>c_new\<close> (the answer joined to the parent directory) already
  exists, the action prints the error that it exists and returns a \<^verbatim>\<open>Stage\<close> that holds
  the input state: its trace has no mutation of the filesystem and no call of
  \<^verbatim>\<open>forward\<close>, so the state is the one passed in and not a rebuilt one.
\<close>

theorem exists_aborts:
  assumes "input E = Some child" and "child \<noteq> []"
    and "nd = (case p_index L E s of None \<Rightarrow> root s | Some n \<Rightarrow> n)"
    and "parent = (if is_dir L nd then path nd else dirname (path nd))"
  shows "(p_index L E s = Some node \<and> fs_exists E (join (path (root s)) child) \<longrightarrow>
            c_rename L E s =
              ([Input, Print (warning_sign @ ''  Exists: '' @ join (path (root s)) child) True],
               Some (Stage_of s))
            \<and> mutations (fst (c_rename L E s)) = []
            \<and> forwarded (fst (c_rename L E s)) = []
            \<and> errors (fst (c_rename L E s)) =
                [warning_sign @ ''  Exists: '' @ join (path (root s)) child]
            \<and> run_state s (c_rename L E s) = s)
         \<and> (fs_exists E (join parent child) \<longrightarrow>
            c_new L E s =
              ([Input, Print (warning_sign @ ''  Exists: '' @ join parent child) True],
               Some (Stage_of s))
            \<and> mutations (fst (c_new L E s)) = []
            \<and> forwarded (fst (c_new L E s)) = []
            \<and> errors (fst (c_new L E s)) = [warning_sign @ ''  Exists: '' @ join parent child]
            \<and> run_state s (c_new L E s) = s)"
  using assms by (simp add: c_rename_def c_new_def Let_def run_state_def Stage_of_def)

text \<open>
  With the cursor on the folder \<^verbatim>\<open>/r/b\<close> and the answer \<^verbatim>\<open>d.txt\<close>, renaming aims at
  \<^verbatim>\<open>/r/d.txt\<close> and creating at \<^verbatim>\<open>/r/b/d.txt\<close>; both exist.
\<close>

theorem exists_aborts_witness:
  "p_index lib0 env0 state0 = Some node_b
   \<and> fs_exists env0 ''/r/d.txt''
   \<and> c_rename lib0 env0 state0 =
       ([Input, Print (warning_sign @ ''  Exists: /r/d.txt'') True], Some (Stage_of state0))
   \<and> fs_exists env0 ''/r/b/d.txt''
   \<and> c_new lib0 env0 state0 =
       ([Input, Print (warning_sign @ ''  Exists: /r/b/d.txt'') True], Some (Stage_of state0))"
proof -
  have a: "p_index lib0 env0 state0 = Some node_b"
    by (simp add: p_index_def lib0_def env0_def rows_def)
  have i: "input env0 = Some ''d.txt''" and n: "''d.txt'' \<noteq> []"
    by (simp_all add: env0_def)
  have nd: "node_b = (case p_index lib0 env0 state0 of None \<Rightarrow> root state0 | Some n \<Rightarrow> n)"
    by (simp add: a)
  have par: "''/r/b'' = (if is_dir lib0 node_b then path node_b else dirname (path node_b))"
    by (simp add: lib0_def node_b_def)
  have j1: "join (path (root state0)) ''d.txt'' = ''/r/d.txt''"
    by (simp add: join_def sep_def state0_def node_r_def)
  have j2: "join ''/r/b'' ''d.txt'' = ''/r/b/d.txt''"
    by (simp add: join_def sep_def)
  have e: "fs_exists env0 q" for q
    by (simp add: env0_def)
  from exists_aborts [OF i n nd par, of node_b] a e j1 j2
  show ?thesis by simp
qed

subsection \<open>Toggling quickfix filtering on an empty list\<close>

text \<open>
  C2, as the code has it. With an empty quickfix list \<^verbatim>\<open>c_toggle_qf_filtering\<close> calls
  \<^verbatim>\<open>forward\<close> with a quickfix overlay of no locations and \<^verbatim>\<open>filtering\<close> false, prints
  the error that the list is empty and returns a \<^verbatim>\<open>Stage\<close> with the state \<^verbatim>\<open>forward\<close>
  built. With a \<^verbatim>\<open>forward\<close> that adopts the overlay it is given, \<^verbatim>\<open>qf.filtering\<close> is
  false in the resulting state.
\<close>

theorem c_toggle_qf_empty:
  assumes "quickfix E = []"
    and "d = no_deltas\<lparr>d_qf := Some \<lparr>locations = [], filtering = False\<rparr>\<rparr>"
  shows "c_toggle_qf_filtering L E s =
           ([Forward d, Print ''quickfix list empty'' True], Some (Stage_of (forward L s d)))
         \<and> errors (fst (c_toggle_qf_filtering L E s)) = [''quickfix list empty'']
         \<and> run_state s (c_toggle_qf_filtering L E s) = forward L s d
         \<and> ((\<forall>t e q. d_qf e = Some q \<longrightarrow> qf (forward L t e) = q) \<longrightarrow>
              \<not> filtering (qf (run_state s (c_toggle_qf_filtering L E s))))"
  using assms by (simp add: c_toggle_qf_filtering_def Let_def run_state_def Stage_of_def)

theorem c_toggle_qf_empty_witness:
  "quickfix env0 = []
   \<and> errors (fst (c_toggle_qf_filtering lib0 env0 state_qf)) = [''quickfix list empty'']
   \<and> \<not> filtering (qf (run_state state_qf (c_toggle_qf_filtering lib0 env0 state_qf)))"
proof -
  have a: "quickfix env0 = []"
    by (simp add: env0_def)
  have m: "\<forall>t e q. d_qf e = Some q \<longrightarrow> qf (forward lib0 t e) = q"
    by (simp add: lib0_def forward_spec_def supplied_def Let_def)
  note t = c_toggle_qf_empty [OF a refl, of lib0 state_qf]
  from t have e: "errors (fst (c_toggle_qf_filtering lib0 env0 state_qf)) = [''quickfix list empty'']"
    by blast
  from t m have f: "\<not> filtering (qf (run_state state_qf (c_toggle_qf_filtering lib0 env0 state_qf)))"
    by blast
  from a e f show ?thesis by blast
qed

text \<open>
  The state is not left unchanged: in a state where quickfix filtering is on, the toggle
  on an empty list switches it off.
\<close>

theorem c_toggle_qf_unchanged_counterexample:
  "quickfix env0 = []
   \<and> filtering (qf state_qf)
   \<and> \<not> filtering (qf (run_state state_qf (c_toggle_qf_filtering lib0 env0 state_qf)))
   \<and> run_state state_qf (c_toggle_qf_filtering lib0 env0 state_qf) \<noteq> state_qf"
proof -
  have a: "quickfix env0 = []"
    by (simp add: env0_def)
  have b: "filtering (qf state_qf)"
    by (simp add: state_qf_def)
  have c: "\<not> filtering (qf (run_state state_qf (c_toggle_qf_filtering lib0 env0 state_qf)))"
    by (simp add: c_toggle_qf_filtering_def Let_def run_state_def Stage_of_def a
        lib0_def forward_spec_def supplied_def no_deltas_def)
  from b c have "run_state state_qf (c_toggle_qf_filtering lib0 env0 state_qf) \<noteq> state_qf"
    by auto
  with a b c show ?thesis by simp
qed

subsection \<open>Refreshing while only a pattern is set\<close>

text \<open>
  C1 at a state with a filter pattern and no search set. \<^verbatim>\<open>_is_filtering\<close> is a
  conjunction, so it is false there, and \<^verbatim>\<open>c_refresh\<close> passes the selected path, which
  exists, on to \<^verbatim>\<open>forward\<close> instead of the empty set.
\<close>

theorem c_refresh_pattern_only_keeps_selection:
  "pattern (filter_pattern state_pat_sel) \<noteq> []
   \<and> selection state_pat_sel = {''/r/d.txt''}
   \<and> map d_selection (forwarded (fst (c_refresh lib0 env0 state_pat_sel False))) =
       [Some {''/r/d.txt''}]
   \<and> selection (run_state state_pat_sel (c_refresh lib0 env0 state_pat_sel False)) =
       {''/r/d.txt''}"
  by (auto simp add: state_pat_sel_def state_sel_def state0_def c_refresh_def Let_def
      p_is_filtering_def env0_def run_state_def Stage_of_def lib0_def forward_spec_def
      supplied_def no_deltas_def)

subsection \<open>A deletion that fails\<close>

text \<open>
  C4, as the code has it. When the deletion that \<^verbatim>\<open>_delete\<close> runs for \<^verbatim>\<open>c_delete\<close> or
  \<^verbatim>\<open>c_trash\<close> raises, the exception is printed as an error and the result is that of
  \<^verbatim>\<open>c_refresh\<close> on the input state: \<^verbatim>\<open>forward\<close> is called once, with the arguments of
  the refresh and not with the emptied selection of a successful deletion. When neither a
  pattern nor a search set is present, the selection passed on is the selected paths for
  which \<^verbatim>\<open>os.path.exists\<close> answers \<^verbatim>\<open>True\<close> after the failed deletion: a path is
  selected afterwards exactly when it was selected and \<^verbatim>\<open>os.path.exists\<close> answers
  \<^verbatim>\<open>True\<close> for it (for a \<^verbatim>\<open>forward\<close> that adopts the selection it is given).
\<close>

theorem p_delete_failure:
  assumes "u = unify_ancestors L
                 (if selection s \<noteq> {} then selection s
                  else path ` set (p_indices L E s is_visual))"
    and "u \<noteq> []" and "confirm E = 1" and "run_fs E (yeet u) = (Some e, after)"
    and "r = c_refresh L (E\<lparr>exists := after\<rparr>) s False"
  shows "p_delete L E s is_visual yeet = ([Confirm, Fs (yeet u), Print e True] @ fst r, snd r)
         \<and> c_delete L E s is_visual = p_delete L E s is_visual Remove
         \<and> c_trash L E s is_visual = p_delete L E s is_visual Trash
         \<and> errors (fst (p_delete L E s is_visual yeet)) = [e]
         \<and> (\<exists>d. forwarded (fst (p_delete L E s is_visual yeet)) = [d]
                \<and> snd (p_delete L E s is_visual yeet) = Some (Stage_of (forward L s d))
                \<and> (pattern (filter_pattern s) = [] \<and> search_set (filter_pattern s) = {}
                     \<longrightarrow> d_selection d = Some (Set.filter after (selection s))))
         \<and> (pattern (filter_pattern s) = [] \<and> search_set (filter_pattern s) = {}
              \<and> (\<forall>t d S. d_selection d = Some S \<longrightarrow> selection (forward L t d) = S)
              \<longrightarrow> (p \<in> selection (run_state s (p_delete L E s is_visual yeet)))
                    = (p \<in> selection s \<and> after p))"
proof -
  from assms have 1:
    "p_delete L E s is_visual yeet = ([Confirm, Fs (yeet u), Print e True] @ fst r, snd r)"
    by (simp add: p_delete_def Let_def)
  obtain d where r: "r = ([Forward d], Some (Stage_of (forward L s d)))"
    and d: "d_selection d = Some (if p_is_filtering (filter_pattern s) then {}
                                   else Set.filter after (selection s))"
    using assms(5) by (simp add: c_refresh_def Let_def)
  have 2: "errors (fst (p_delete L E s is_visual yeet)) = [e]"
    by (simp add: 1 r)
  have 3: "forwarded (fst (p_delete L E s is_visual yeet)) = [d]"
    by (simp add: 1 r)
  have 4: "snd (p_delete L E s is_visual yeet) = Some (Stage_of (forward L s d))"
    by (simp add: 1 r)
  have 5: "d_selection d = Some (Set.filter after (selection s))"
    if "pattern (filter_pattern s) = [] \<and> search_set (filter_pattern s) = {}"
    using that d by (simp add: p_is_filtering_def)
  have 6: "(p \<in> selection (run_state s (p_delete L E s is_visual yeet)))
           = (p \<in> selection s \<and> after p)"
    if "pattern (filter_pattern s) = [] \<and> search_set (filter_pattern s) = {}"
      and "\<forall>t d S. d_selection d = Some S \<longrightarrow> selection (forward L t d) = S"
  proof -
    from that(2) 5 [OF that(1)]
    have "selection (forward L s d) = Set.filter after (selection s)"
      by blast
    then show ?thesis
      by (simp add: run_state_def 4 Stage_of_def)
  qed
  from 1 2 3 4 5 6 show ?thesis
    by (simp add: c_delete_def c_trash_def)
qed

text \<open>
  Deleting the selected \<^verbatim>\<open>/r/d.txt\<close> fails with a permission error, the file is still
  there and \<^verbatim>\<open>os.path.exists\<close> says so: it stays selected.
\<close>

theorem p_delete_failure_witness:
  "confirm env_disk = 1
   \<and> fst (run_fs env_disk (Remove [''/r/d.txt''])) = Some ''Permission denied''
   \<and> snd (run_fs env_disk (Remove [''/r/d.txt''])) ''/r/d.txt''
   \<and> errors (fst (c_delete lib0 env_disk state_sel False)) = [''Permission denied'']
   \<and> ''/r/d.txt'' \<in> selection (run_state state_sel (c_delete lib0 env_disk state_sel False))"
proof -
  have u: "[''/r/d.txt''] = unify_ancestors lib0
             (if selection state_sel \<noteq> {} then selection state_sel
              else path ` set (p_indices lib0 env_disk state_sel False))"
    by (simp add: state_sel_def state0_def lib0_def)
  have n: "[''/r/d.txt''] \<noteq> []"
    by simp
  have c: "confirm env_disk = 1"
    by (simp add: env_disk_def env0_def)
  have f: "run_fs env_disk (Remove [''/r/d.txt'']) =
             (Some ''Permission denied'', os_path_exists disk0)"
    by (simp add: env_disk_def)
  have x: "os_path_exists disk0 ''/r/d.txt''"
    by (simp add: os_path_exists_def disk0_def)
  have m: "\<forall>t d S. d_selection d = Some S \<longrightarrow> selection (forward lib0 t d) = S"
    by (simp add: lib0_def forward_spec_def supplied_def Let_def)
  have q: "pattern (filter_pattern state_sel) = [] \<and> search_set (filter_pattern state_sel) = {}"
    and i: "''/r/d.txt'' \<in> selection state_sel"
    by (simp_all add: state_sel_def state0_def)
  note t = p_delete_failure [where yeet = Remove and u = "[''/r/d.txt'']"
      and p = "''/r/d.txt''", OF u n c f refl]
  from t have d: "c_delete lib0 env_disk state_sel False =
      p_delete lib0 env_disk state_sel False Remove"
    by blast
  from t have e: "errors (fst (p_delete lib0 env_disk state_sel False Remove)) =
      [''Permission denied'']"
    by blast
  from t q i m x
  have s: "''/r/d.txt'' \<in> selection (run_state state_sel
      (p_delete lib0 env_disk state_sel False Remove))"
    by blast
  from c f d e s x show ?thesis by simp
qed

text \<open>
  The claim fails in two ways. With a pattern and a search set present the refresh
  empties the selection, although the deletion of \<^verbatim>\<open>/r/d.txt\<close> failed and the file is
  still there. And without any filter the selected dead link \<^verbatim>\<open>/r/l\<close>, whose deletion
  failed and which is still on disk, leaves the selection, because \<^verbatim>\<open>os.path.exists\<close>
  answers \<^verbatim>\<open>False\<close> for a link without a target.
\<close>

theorem p_delete_selection_counterexample:
  "(''/r/d.txt'' \<in> selection state_both_sel
    \<and> fst (run_fs env_disk (Remove [''/r/d.txt''])) = Some ''Permission denied''
    \<and> lexists disk0 ''/r/d.txt''
    \<and> snd (run_fs env_disk (Remove [''/r/d.txt''])) ''/r/d.txt''
    \<and> mutations (fst (c_delete lib0 env_disk state_both_sel False)) = [Remove [''/r/d.txt'']]
    \<and> errors (fst (c_delete lib0 env_disk state_both_sel False)) = [''Permission denied'']
    \<and> map d_selection (forwarded (fst (c_delete lib0 env_disk state_both_sel False))) =
        [Some {}]
    \<and> ''/r/d.txt'' \<notin> selection (run_state state_both_sel
                                    (c_delete lib0 env_disk state_both_sel False)))
   \<and> (''/r/l'' \<in> selection state_link
    \<and> pattern (filter_pattern state_link) = []
    \<and> search_set (filter_pattern state_link) = {}
    \<and> fst (run_fs env_disk (Remove [''/r/l''])) = Some ''Permission denied''
    \<and> lexists disk0 ''/r/l''
    \<and> \<not> snd (run_fs env_disk (Remove [''/r/l''])) ''/r/l''
    \<and> mutations (fst (c_delete lib0 env_disk state_link False)) = [Remove [''/r/l'']]
    \<and> errors (fst (c_delete lib0 env_disk state_link False)) = [''Permission denied'']
    \<and> map d_selection (forwarded (fst (c_delete lib0 env_disk state_link False))) =
        [Some {}]
    \<and> ''/r/l'' \<notin> selection (run_state state_link
                                 (c_delete lib0 env_disk state_link False)))"
proof -
  have x: "os_path_exists disk0 ''/r/d.txt''" and y: "\<not> os_path_exists disk0 ''/r/l''"
    and z: "lexists disk0 ''/r/d.txt''" "lexists disk0 ''/r/l''"
    by (simp_all add: os_path_exists_def lexists_def disk0_def)
  have a: "''/r/d.txt'' \<in> selection state_both_sel
    \<and> fst (run_fs env_disk (Remove [''/r/d.txt''])) = Some ''Permission denied''
    \<and> snd (run_fs env_disk (Remove [''/r/d.txt''])) ''/r/d.txt''
    \<and> mutations (fst (c_delete lib0 env_disk state_both_sel False)) = [Remove [''/r/d.txt'']]
    \<and> errors (fst (c_delete lib0 env_disk state_both_sel False)) = [''Permission denied'']
    \<and> map d_selection (forwarded (fst (c_delete lib0 env_disk state_both_sel False))) =
        [Some {}]
    \<and> ''/r/d.txt'' \<notin> selection (run_state state_both_sel
                                    (c_delete lib0 env_disk state_both_sel False))"
    using x
    by (simp add: c_delete_def p_delete_def c_refresh_def Let_def p_is_filtering_def
        state_both_sel_def state_sel_def state0_def env_disk_def env0_def lib0_def
        run_state_def Stage_of_def forward_spec_def supplied_def no_deltas_def)
  have b: "''/r/l'' \<in> selection state_link
    \<and> pattern (filter_pattern state_link) = []
    \<and> search_set (filter_pattern state_link) = {}
    \<and> fst (run_fs env_disk (Remove [''/r/l''])) = Some ''Permission denied''
    \<and> \<not> snd (run_fs env_disk (Remove [''/r/l''])) ''/r/l''
    \<and> mutations (fst (c_delete lib0 env_disk state_link False)) = [Remove [''/r/l'']]
    \<and> errors (fst (c_delete lib0 env_disk state_link False)) = [''Permission denied'']
    \<and> map d_selection (forwarded (fst (c_delete lib0 env_disk state_link False))) =
        [Some {}]
    \<and> ''/r/l'' \<notin> selection (run_state state_link
                                 (c_delete lib0 env_disk state_link False))"
    using y
    by (simp add: c_delete_def p_delete_def c_refresh_def Let_def p_is_filtering_def
        state_link_def state0_def env_disk_def env0_def lib0_def
        run_state_def Stage_of_def forward_spec_def supplied_def no_deltas_def)
  from a b z show ?thesis by blast
qed

subsection \<open>Selecting twice\<close>

lemma set_xor_twice: "set_xor (set_xor S P) P = S"
  by (auto simp add: set_xor_def)

text \<open>
  C6. Running \<^verbatim>\<open>c_select\<close> twice on the same paths (the node under the cursor, or the
  nodes under the marks in visual mode) gives back the original selection, for a
  \<^verbatim>\<open>forward\<close> that adopts the selection it is given: the paths are toggled by the
  symmetric difference, which undoes itself.
\<close>

theorem c_select_twice:
  assumes "\<forall>t d S. d_selection d = Some S \<longrightarrow> selection (forward L t d) = S"
    and "s' = run_state s (c_select L E s is_visual)"
    and "path ` set (p_indices L E' s' is_visual) = path ` set (p_indices L E s is_visual)"
  shows "selection (run_state s' (c_select L E' s' is_visual)) = selection s"
proof (cases is_visual)
  case True
  let ?P = "path ` set (p_indices L E s True)"
  from True assms(1,2) have 1: "selection s' = set_xor (selection s) ?P"
    by (simp add: c_select_def Let_def run_state_def Stage_of_def)
  from True assms(1,3) have "selection (run_state s' (c_select L E' s' is_visual)) =
      set_xor (selection s') ?P"
    by (simp add: c_select_def Let_def run_state_def Stage_of_def)
  with 1 show ?thesis
    by (simp add: set_xor_twice)
next
  case False
  show ?thesis
  proof (cases "p_indices L E s False")
    case Nil
    with False assms(2) have "s' = s"
      by (simp add: c_select_def run_state_def)
    with Nil False assms(3) show ?thesis
      by (simp add: c_select_def run_state_def)
  next
    case (Cons node rest)
    have one: "rest = []"
      using Cons by (simp add: p_indices_def split: option.splits)
    from False Cons assms(1,2) have 1: "selection s' = set_xor (selection s) {path node}"
      by (simp add: c_select_def Let_def run_state_def Stage_of_def)
    from False Cons one assms(3)
    have "path ` set (p_indices L E' s' False) = {path node}"
      by simp
    then obtain node1 where n1: "p_indices L E' s' False = [node1]" and p1: "path node1 = path node"
      by (cases "state_index L s' (cursor_row E' - 1)") (auto simp add: p_indices_def)
    from False n1 p1 assms(1)
    have "selection (run_state s' (c_select L E' s' is_visual)) =
        set_xor (selection s') {path node}"
      by (simp add: c_select_def Let_def run_state_def Stage_of_def)
    with 1 show ?thesis
      by (simp add: set_xor_twice)
  qed
qed

text \<open>
  In visual mode the marks cover \<^verbatim>\<open>/r/b/c.txt\<close> and \<^verbatim>\<open>/r/d.txt\<close>, of which the second
  is selected; otherwise the cursor is on \<^verbatim>\<open>/r/b\<close>.
\<close>

theorem c_select_twice_witness:
  "selection (run_state state_sel (c_select lib0 env0 state_sel True)) =
     {''/r/b/c.txt''}
   \<and> selection (run_state (run_state state_sel (c_select lib0 env0 state_sel True))
        (c_select lib0 env0 (run_state state_sel (c_select lib0 env0 state_sel True)) True)) =
     selection state_sel
   \<and> selection (run_state state0 (c_select lib0 env0 state0 False)) = {''/r/b''}
   \<and> selection (run_state (run_state state0 (c_select lib0 env0 state0 False))
        (c_select lib0 env0 (run_state state0 (c_select lib0 env0 state0 False)) False)) =
     selection state0"
proof -
  have m: "\<forall>t d S. d_selection d = Some S \<longrightarrow> selection (forward lib0 t d) = S"
    by (simp add: lib0_def forward_spec_def supplied_def Let_def)
  have i: "path ` set (p_indices lib0 env0 t v) = path ` set (p_indices lib0 env0 t' v)"
    for t t' v
    by (simp add: p_indices_def lib0_def)
  have v: "p_indices lib0 env0 t True = [node_c, node_d]" for t
    by (simp add: p_indices_def lib0_def env0_def rows_def upto.simps)
  have c: "p_indices lib0 env0 t False = [node_b]" for t
    by (simp add: p_indices_def lib0_def env0_def rows_def)
  have 1: "selection (run_state state_sel (c_select lib0 env0 state_sel True)) = {''/r/b/c.txt''}"
    using m by (auto simp add: c_select_def Let_def run_state_def Stage_of_def v set_xor_def
        state_sel_def state0_def node_c_def node_d_def)
  have 2: "selection (run_state state0 (c_select lib0 env0 state0 False)) = {''/r/b''}"
    using m by (auto simp add: c_select_def Let_def run_state_def Stage_of_def c set_xor_def
        state0_def node_b_def)
  from c_select_twice [where L = lib0 and E = env0 and E' = env0 and s = state_sel
      and is_visual = True, OF m refl i]
  have 3: "selection (run_state (run_state state_sel (c_select lib0 env0 state_sel True))
        (c_select lib0 env0 (run_state state_sel (c_select lib0 env0 state_sel True)) True)) =
     selection state_sel" .
  from c_select_twice [where L = lib0 and E = env0 and E' = env0 and s = state0
      and is_visual = False, OF m refl i]
  have 4: "selection (run_state (run_state state0 (c_select lib0 env0 state0 False))
        (c_select lib0 env0 (run_state state0 (c_select lib0 env0 state0 False)) False)) =
     selection state0" .
  from 1 2 3 4 show ?thesis by blast
qed

end
